theory Spec2Isabelle
  imports Complex_Main
begin

section \<open>Data model (blockchain.py)\<close>

text \<open>
  Python's floats (amounts, timestamps) are read as reals; the theorems below take the
  comparisons, sums and differences of the code as they stand, and of the laws of arithmetic
  only that a product does not depend on the order of its factors.
  Python's unbounded integers are \<open>int\<close>. The two library functions the code hashes with,
  \<open>hashlib.sha256(s.encode()).hexdigest()\<close> and \<open>json.dumps(d, sort_keys=True)\<close>, are
  parameters \<open>sha\<close> and \<open>dumps\<close> of every function that calls them.
\<close>

datatype json =
    JNull
  | JStr string
  | JInt int
  | JNum real
  | JList "json list"
  | JObj "(string \<times> json) list"

datatype py_error = IndexError | KeyError

text \<open>
  What a peer sends for a transaction and for a block: the dictionaries of a
  \<open>chain_response\<close> message, key by key. A key may be missing (\<open>None\<close>); a value that is
  there has the type \<open>send_chain\<close> gives it. The signature is read with \<open>.get\<close>, which
  answers \<open>None\<close> for a missing key.
\<close>

record transaction_dict =
  sender :: "string option"
  recipient :: "string option"
  amount :: "real option"
  transaction_id :: "string option"
  timestamp :: "real option"
  signature :: "string option"

record block_dict =
  index :: "int option"
  timestamp :: "real option"
  transactions :: "transaction_dict list option"
  previous_hash :: "string option"
  nonce :: "int option"
  difficulty :: "int option"
  merkle_root :: "string option"
  hash :: "string option"

record transaction =
  sender :: string
  recipient :: string
  amount :: real
  transaction_id :: string
  timestamp :: real
  signature :: "string option"

text \<open>\<open>Block.hash\<close> is an attribute assigned after construction; it is a field here.\<close>

record block =
  index :: int
  timestamp :: real
  transactions :: "transaction list"
  previous_hash :: string
  nonce :: int
  difficulty :: int
  merkle_root :: string
  hash :: string

text \<open>
  A wallet is its two capabilities on the serialised transaction: \<open>sign_transaction\<close>
  and \<open>verify_signature\<close> (which answers False where the library raises).
\<close>

record wallet =
  sign :: "string \<Rightarrow> string"
  verify :: "string \<Rightarrow> string \<Rightarrow> bool"

text \<open>The \<open>wallets\<close> dictionary of the class is touched by none of the operations below.\<close>

record blockchain =
  chain :: "block list"
  pending_transactions :: "transaction list"
  difficulty :: int
  utxo_set :: "string \<rightharpoonup> real"
  mining_reward :: real
  target_block_time :: real
  last_mining_time :: real

section \<open>Strings\<close>

text \<open>\<open>str(n)\<close> for an integer, \<open>int(x)\<close> for a float (truncation towards zero),
  \<open>s.startswith(t)\<close> and \<open>"0" * n\<close>.\<close>

function str_digits :: "int \<Rightarrow> string" where
  "str_digits n = (if n < 10 then [''0123456789'' ! nat n]
                   else str_digits (n div 10) @ [''0123456789'' ! nat (n mod 10)])"
  by pat_completeness auto
termination
  by (relation "measure nat") auto

declare str_digits.simps [simp del]

definition str_int :: "int \<Rightarrow> string" where
  "str_int i = (if i < 0 then CHR ''-'' # str_digits (- i) else str_digits i)"

definition py_int :: "real \<Rightarrow> int" where
  "py_int x = (if 0 \<le> x then \<lfloor>x\<rfloor> else \<lceil>x\<rceil>)"

definition startswith :: "string \<Rightarrow> string \<Rightarrow> bool" where
  "startswith s t = (take (length t) s = t)"

definition zeros :: "int \<Rightarrow> string" where
  "zeros n = replicate (nat n) CHR ''0''"

section \<open>Hashing\<close>

definition transaction_to_dict :: "transaction \<Rightarrow> json" where
  "transaction_to_dict tx = JObj
     [(''sender'', JStr (sender tx)),
      (''recipient'', JStr (recipient tx)),
      (''amount'', JNum (amount tx)),
      (''transaction_id'', JStr (transaction_id tx)),
      (''timestamp'', JNum (transaction.timestamp tx))]"

definition transaction_calculate_hash ::
  "(string \<Rightarrow> string) \<Rightarrow> (json \<Rightarrow> string) \<Rightarrow> transaction \<Rightarrow> string" where
  "transaction_calculate_hash sha dumps tx = sha (dumps (transaction_to_dict tx))"

definition block_data :: "block \<Rightarrow> json" where
  "block_data b = JObj
     [(''index'', JInt (index b)),
      (''timestamp'', JNum (block.timestamp b)),
      (''transactions'', JList (map transaction_to_dict (transactions b))),
      (''previous_hash'', JStr (previous_hash b)),
      (''nonce'', JInt (nonce b)),
      (''difficulty'', JInt (block.difficulty b)),
      (''merkle_root'', JStr (merkle_root b))]"

definition block_calculate_hash ::
  "(string \<Rightarrow> string) \<Rightarrow> (json \<Rightarrow> string) \<Rightarrow> block \<Rightarrow> string" where
  "block_calculate_hash sha dumps b = sha (dumps (block_data b))"

section \<open>Merkle root\<close>

text \<open>The padding step of the while loop: an odd level gets its last hash once more.\<close>

definition pad_level :: "string list \<Rightarrow> string list" where
  "pad_level hs = (if length hs mod 2 = 1 then hs @ [last hs] else hs)"

text \<open>
  The inner for loop over \<open>range(0, len(tx_hashes), 2)\<close>. It runs on a padded level, whose
  length is even, so the second equation (where the source would read past the end) is
  never reached from \<open>merkle_loop\<close>.
\<close>

fun hash_pairs :: "(string \<Rightarrow> string) \<Rightarrow> string list \<Rightarrow> string list" where
  "hash_pairs sha [] = []"
| "hash_pairs sha [a] = []"
| "hash_pairs sha (a # b # hs) = sha (a @ b) # hash_pairs sha hs"

function merkle_loop :: "(string \<Rightarrow> string) \<Rightarrow> string list \<Rightarrow> string list" where
  "merkle_loop sha hs =
     (if length hs > 1 then merkle_loop sha (hash_pairs sha (pad_level hs)) else hs)"
  by pat_completeness auto
termination
proof (relation "measure (\<lambda>(sha, hs). length hs)")
  show "wf (measure (\<lambda>(sha :: string \<Rightarrow> string, hs :: string list). length hs))"
    by simp
next
  fix sha :: "string \<Rightarrow> string" and hs :: "string list"
  assume long: "1 < length hs"
  have halves: "length (hash_pairs sha ys) = length ys div 2" for ys
    by (induction sha ys rule: hash_pairs.induct) simp_all
  have "length (pad_level hs) \<le> length hs + 1"
    by (simp add: pad_level_def)
  with long have "length (hash_pairs sha (pad_level hs)) < length hs"
    unfolding halves by linarith
  then show "((sha, hash_pairs sha (pad_level hs)), (sha, hs))
               \<in> measure (\<lambda>(sha, hs). length hs)"
    by simp
qed

declare merkle_loop.simps [simp del]

definition calculate_merkle_root ::
  "(string \<Rightarrow> string) \<Rightarrow> (json \<Rightarrow> string) \<Rightarrow> transaction list \<Rightarrow> string" where
  "calculate_merkle_root sha dumps txs =
     (if txs = [] then ''0''
      else (let tx_hashes = merkle_loop sha (map (transaction_calculate_hash sha dumps) txs)
            in if tx_hashes \<noteq> [] then hd tx_hashes else ''0''))"

text \<open>
  The reference definition, in the words of the specification: pair adjacent hashes, an odd
  level counting its last hash twice, until one hash remains.
\<close>

fun spec_pair_up :: "(string \<Rightarrow> string) \<Rightarrow> string list \<Rightarrow> string list" where
  "spec_pair_up sha [] = []"
| "spec_pair_up sha [a] = [sha (a @ a)]"
| "spec_pair_up sha (a # b # hs) = sha (a @ b) # spec_pair_up sha hs"

function spec_reduce :: "(string \<Rightarrow> string) \<Rightarrow> string list \<Rightarrow> string" where
  "spec_reduce sha [] = ''0''"
| "spec_reduce sha [r] = r"
| "spec_reduce sha (a # b # hs) = spec_reduce sha (spec_pair_up sha (a # b # hs))"
  by pat_completeness auto
termination
proof (relation "measure (\<lambda>(sha, hs). length hs)")
  show "wf (measure (\<lambda>(sha :: string \<Rightarrow> string, hs :: string list). length hs))"
    by simp
next
  fix sha :: "string \<Rightarrow> string" and a b :: string and hs :: "string list"
  have "length (spec_pair_up sha ys) \<le> (length ys + 1) div 2" for ys
    by (induction sha ys rule: spec_pair_up.induct) simp_all
  from this [of hs]
  show "((sha, spec_pair_up sha (a # b # hs)), (sha, a # b # hs))
          \<in> measure (\<lambda>(sha, hs). length hs)"
    by simp
qed

definition merkle_root_spec ::
  "(string \<Rightarrow> string) \<Rightarrow> (json \<Rightarrow> string) \<Rightarrow> transaction list \<Rightarrow> string" where
  "merkle_root_spec sha dumps txs =
     (if txs = [] then ''0''
      else spec_reduce sha (map (transaction_calculate_hash sha dumps) txs))"

section \<open>Ledger: balances and mempool admission\<close>

text \<open>The body of both loops of \<open>get_balance\<close>: credit the recipient, debit the sender.\<close>

definition balance_step :: "string \<Rightarrow> real \<Rightarrow> transaction \<Rightarrow> real" where
  "balance_step address balance tx =
     (let credited = (if recipient tx = address then balance + amount tx else balance)
      in if sender tx = address then credited - amount tx else credited)"

definition get_balance :: "blockchain \<Rightarrow> string \<Rightarrow> real" where
  "get_balance s address =
     foldl (balance_step address)
       (foldl (\<lambda>balance blk. foldl (balance_step address) balance (transactions blk))
          0 (chain s))
       (pending_transactions s)"

definition is_valid_transaction :: "blockchain \<Rightarrow> transaction \<Rightarrow> bool" where
  "is_valid_transaction s tx =
     (if sender tx = ''Genesis'' then True
      else if get_balance s (sender tx) < amount tx then False
      else if list_ex (\<lambda>pending_tx. sender pending_tx = sender tx \<and>
                         transaction_id pending_tx \<noteq> transaction_id tx)
                (pending_transactions s) then False
      else True)"

text \<open>
  \<open>add_transaction\<close>. The two readings of the clock are arguments: \<open>t_id\<close> for the
  transaction id, \<open>t_stamp\<close> for the timestamp. The result is the returned boolean and
  the state after the call.
\<close>

definition new_transaction ::
  "string \<Rightarrow> string \<Rightarrow> real \<Rightarrow> real \<Rightarrow> real \<Rightarrow> transaction" where
  "new_transaction sender_name recipient_name amt t_id t_stamp =
     \<lparr>sender = sender_name, recipient = recipient_name, amount = amt,
      transaction_id = sender_name @ ''_'' @ recipient_name @ ''_'' @ str_int (py_int t_id),
      timestamp = t_stamp, signature = None\<rparr>"

definition add_transaction ::
  "(json \<Rightarrow> string) \<Rightarrow> string \<Rightarrow> string \<Rightarrow> real \<Rightarrow> wallet \<Rightarrow> real \<Rightarrow> real \<Rightarrow>
     blockchain \<Rightarrow> bool \<times> blockchain" where
  "add_transaction dumps sender_name recipient_name amt w t_id t_stamp s =
     (if sender_name \<noteq> ''Genesis'' \<and> get_balance s sender_name < amt then (False, s)
      else
        (let unsigned = new_transaction sender_name recipient_name amt t_id t_stamp;
             sig = sign w (dumps (transaction_to_dict unsigned));
             tx = unsigned\<lparr>signature := Some sig\<rparr>
         in if \<not> verify w (dumps (transaction_to_dict tx)) sig then (False, s)
            else if \<not> is_valid_transaction s tx then (False, s)
            else (True, s\<lparr>pending_transactions := pending_transactions s @ [tx]\<rparr>)))"

section \<open>Ledger: unspent outputs and difficulty\<close>

definition utxo_credit :: "(string \<rightharpoonup> real) \<Rightarrow> transaction \<Rightarrow> (string \<rightharpoonup> real)" where
  "utxo_credit u tx =
     (case u (recipient tx) of
        None \<Rightarrow> u(recipient tx \<mapsto> 0 + amount tx)
      | Some v \<Rightarrow> u(recipient tx \<mapsto> v + amount tx))"

definition update_utxo_set :: "blockchain \<Rightarrow> blockchain" where
  "update_utxo_set s =
     s\<lparr>utxo_set := foldl (\<lambda>u blk. foldl utxo_credit u (transactions blk)) Map.empty (chain s)\<rparr>"

definition adjust_difficulty :: "real \<Rightarrow> blockchain \<Rightarrow> blockchain" where
  "adjust_difficulty current_time s =
     (if length (chain s) < 2 then s
      else
        (let s' =
           (if last_mining_time s > 0 then
              (let time_diff = current_time - last_mining_time s
               in if time_diff < target_block_time s * 0.5
                  then s\<lparr>difficulty := blockchain.difficulty s + 1\<rparr>
                  else if time_diff > target_block_time s * 2.0
                  then s\<lparr>difficulty := max 1 (blockchain.difficulty s - 1)\<rparr>
                  else s)
            else s)
         in s'\<lparr>last_mining_time := current_time\<rparr>))"

section \<open>Construction and mining\<close>

definition create_genesis_block ::
  "(string \<Rightarrow> string) \<Rightarrow> (json \<Rightarrow> string) \<Rightarrow> real \<Rightarrow> blockchain \<Rightarrow> blockchain" where
  "create_genesis_block sha dumps now s =
     (let genesis_block =
            \<lparr>index = 0, timestamp = now, transactions = [], previous_hash = ''0'',
             nonce = 0, difficulty = blockchain.difficulty s, merkle_root = ''0'',
             hash = []\<rparr>
      in s\<lparr>chain := chain s @
             [genesis_block\<lparr>hash := block_calculate_hash sha dumps genesis_block\<rparr>]\<rparr>)"

text \<open>\<open>Blockchain(difficulty)\<close>, constructed at time \<open>now\<close>.\<close>

definition new_blockchain ::
  "(string \<Rightarrow> string) \<Rightarrow> (json \<Rightarrow> string) \<Rightarrow> int \<Rightarrow> real \<Rightarrow> blockchain" where
  "new_blockchain sha dumps d now =
     create_genesis_block sha dumps now
       \<lparr>chain = [], pending_transactions = [], difficulty = d, utxo_set = Map.empty,
        mining_reward = 50.0, target_block_time = 10.0, last_mining_time = 0.0\<rparr>"

text \<open>\<open>self.chain[-1]\<close> raises IndexError on an empty chain.\<close>

definition get_latest_block :: "blockchain \<Rightarrow> py_error + block" where
  "get_latest_block s = (if chain s = [] then Inl IndexError else Inr (last (chain s)))"

text \<open>
  The proof-of-work loop \<open>while True\<close>: increment the nonce, hash, stop when the hash
  starts with the target. It need not end; \<open>None\<close> is the search that never returns.
\<close>

partial_function (option) mine_loop ::
  "(string \<Rightarrow> string) \<Rightarrow> (json \<Rightarrow> string) \<Rightarrow> string \<Rightarrow> block \<Rightarrow> block option" where
  "mine_loop sha dumps target b =
     (if startswith (block_calculate_hash sha dumps (b\<lparr>nonce := nonce b + 1\<rparr>)) target
      then Some (b\<lparr>nonce := nonce b + 1\<rparr>)
      else mine_loop sha dumps target (b\<lparr>nonce := nonce b + 1\<rparr>))"

declare mine_loop.simps [code]

text \<open>
  \<open>mine_block\<close>. The clock is read for the block's timestamp (\<open>t_block\<close>), for the reward's
  id (\<open>t_id\<close>) and timestamp (\<open>t_stamp\<close>), and by \<open>adjust_difficulty\<close> (\<open>t_adjust\<close>).
  The result is \<open>None\<close> when the search never returns, \<open>Inl\<close> an exception, and otherwise
  the returned value (\<open>None\<close> or the block) with the state after the call.
\<close>

definition candidate_block ::
  "(string \<Rightarrow> string) \<Rightarrow> (json \<Rightarrow> string) \<Rightarrow> string \<Rightarrow> real \<Rightarrow> real \<Rightarrow> real \<Rightarrow>
     blockchain \<Rightarrow> block \<Rightarrow> block" where
  "candidate_block sha dumps miner_address t_block t_id t_stamp s previous_block =
     (let new_index = index previous_block + 1;
          reward_transaction =
            \<lparr>sender = ''System'', recipient = miner_address, amount = mining_reward s,
             transaction_id = ''reward_'' @ str_int new_index @ ''_'' @ str_int (py_int t_id),
             timestamp = t_stamp, signature = None\<rparr>;
          all_transactions = pending_transactions s @ [reward_transaction]
      in \<lparr>index = new_index, timestamp = t_block, transactions = all_transactions,
          previous_hash = block_calculate_hash sha dumps previous_block,
          nonce = 0, difficulty = blockchain.difficulty s,
          merkle_root = calculate_merkle_root sha dumps all_transactions,
          hash = []\<rparr>)"

definition mine_block ::
  "(string \<Rightarrow> string) \<Rightarrow> (json \<Rightarrow> string) \<Rightarrow> string \<Rightarrow> real \<Rightarrow> real \<Rightarrow> real \<Rightarrow> real \<Rightarrow>
     blockchain \<Rightarrow> (py_error + block option \<times> blockchain) option" where
  "mine_block sha dumps miner_address t_block t_id t_stamp t_adjust s =
     (if pending_transactions s = [] then Some (Inr (None, s))
      else
        (case get_latest_block s of
           Inl e \<Rightarrow> Some (Inl e)
         | Inr previous_block \<Rightarrow>
             (case mine_loop sha dumps (zeros (blockchain.difficulty s))
                     (candidate_block sha dumps miner_address t_block t_id t_stamp s
                        previous_block) of
                None \<Rightarrow> None
              | Some mined \<Rightarrow>
                  (let new_block = mined\<lparr>hash := block_calculate_hash sha dumps mined\<rparr>;
                       s1 = s\<lparr>chain := chain s @ [new_block], pending_transactions := []\<rparr>
                   in Some (Inr (Some new_block,
                                 adjust_difficulty t_adjust (update_utxo_set s1)))))))"

section \<open>Validation\<close>

text \<open>The loop of \<open>is_chain_valid\<close> from block \<open>i\<close> on, \<open>previous_block\<close> being block \<open>i - 1\<close>.\<close>

fun chain_valid_from ::
  "(string \<Rightarrow> string) \<Rightarrow> (json \<Rightarrow> string) \<Rightarrow> block \<Rightarrow> block list \<Rightarrow> bool" where
  "chain_valid_from sha dumps previous_block [] = True"
| "chain_valid_from sha dumps previous_block (current_block # rest) =
     (if block_calculate_hash sha dumps current_block \<noteq> hash current_block then False
      else if previous_hash current_block \<noteq> hash previous_block then False
      else if \<not> startswith (hash current_block) (zeros (block.difficulty current_block))
      then False
      else chain_valid_from sha dumps current_block rest)"

definition is_chain_valid ::
  "(string \<Rightarrow> string) \<Rightarrow> (json \<Rightarrow> string) \<Rightarrow> blockchain \<Rightarrow> bool" where
  "is_chain_valid sha dumps s =
     (case chain s of [] \<Rightarrow> True | genesis # rest \<Rightarrow> chain_valid_from sha dumps genesis rest)"

definition is_block_valid ::
  "(string \<Rightarrow> string) \<Rightarrow> (json \<Rightarrow> string) \<Rightarrow> blockchain \<Rightarrow> block \<Rightarrow> py_error + bool" where
  "is_block_valid sha dumps s b =
     (case get_latest_block s of
        Inl e \<Rightarrow> Inl e
      | Inr latest \<Rightarrow>
          Inr (if previous_hash b \<noteq> hash latest then False
               else if \<not> startswith (hash b) (zeros (block.difficulty b)) then False
               else if block_calculate_hash sha dumps b \<noteq> hash b then False
               else True))"

definition add_block ::
  "(string \<Rightarrow> string) \<Rightarrow> (json \<Rightarrow> string) \<Rightarrow> block \<Rightarrow> blockchain \<Rightarrow>
     py_error + bool \<times> blockchain" where
  "add_block sha dumps b s =
     (case is_block_valid sha dumps s b of
        Inl e \<Rightarrow> Inl e
      | Inr ok \<Rightarrow>
          (if ok then Inr (True, update_utxo_set (s\<lparr>chain := chain s @ [b]\<rparr>))
           else Inr (False, s)))"

section \<open>Peer synchronisation (p2p\_network.py)\<close>

text \<open>
  Building a \<open>Transaction\<close> and a \<open>Block\<close> from received dictionaries, as the loops of
  \<open>handle_chain_response\<close> do: \<open>d['k']\<close> raises KeyError where the key is missing.
\<close>

definition transaction_of_dict :: "transaction_dict \<Rightarrow> py_error + transaction" where
  "transaction_of_dict tx_data =
     (case (transaction_dict.sender tx_data, transaction_dict.recipient tx_data,
            transaction_dict.amount tx_data, transaction_dict.transaction_id tx_data,
            transaction_dict.timestamp tx_data) of
        (Some s, Some r, Some a, Some i, Some t) \<Rightarrow>
          Inr \<lparr>sender = s, recipient = r, amount = a, transaction_id = i, timestamp = t,
               signature = transaction_dict.signature tx_data\<rparr>
      | _ \<Rightarrow> Inl KeyError)"

fun transactions_of_dicts :: "transaction_dict list \<Rightarrow> py_error + transaction list" where
  "transactions_of_dicts [] = Inr []"
| "transactions_of_dicts (tx_data # rest) =
     (case transaction_of_dict tx_data of
        Inl e \<Rightarrow> Inl e
      | Inr tx \<Rightarrow>
          (case transactions_of_dicts rest of
             Inl e \<Rightarrow> Inl e
           | Inr txs \<Rightarrow> Inr (tx # txs)))"

definition block_of_dict :: "block_dict \<Rightarrow> py_error + block" where
  "block_of_dict received =
     (case block_dict.transactions received of
        None \<Rightarrow> Inl KeyError
      | Some tx_dicts \<Rightarrow>
          (case transactions_of_dicts tx_dicts of
             Inl e \<Rightarrow> Inl e
           | Inr txs \<Rightarrow>
               (case (block_dict.index received, block_dict.timestamp received,
                      block_dict.previous_hash received, block_dict.nonce received,
                      block_dict.difficulty received, block_dict.merkle_root received,
                      block_dict.hash received) of
                  (Some i, Some t, Some p, Some n, Some d, Some m, Some h) \<Rightarrow>
                    Inr \<lparr>index = i, timestamp = t, transactions = txs, previous_hash = p,
                         nonce = n, difficulty = d, merkle_root = m, hash = h\<rparr>
                | _ \<Rightarrow> Inl KeyError)))"

text \<open>
  The loop of \<open>validate_received_chain\<close> from block \<open>i\<close> on. It reads the keys
  \<open>previous_hash\<close>, \<open>hash\<close> and \<open>index\<close> and no other, in the order of the source.
\<close>

fun links_valid_from :: "block_dict \<Rightarrow> block_dict list \<Rightarrow> py_error + bool" where
  "links_valid_from previous_block [] = Inr True"
| "links_valid_from previous_block (current_block # rest) =
     (case block_dict.previous_hash current_block of
        None \<Rightarrow> Inl KeyError
      | Some current_previous_hash \<Rightarrow>
     (case block_dict.hash previous_block of
        None \<Rightarrow> Inl KeyError
      | Some previous_stored_hash \<Rightarrow>
     if current_previous_hash \<noteq> previous_stored_hash then Inr False
     else
     (case block_dict.index current_block of
        None \<Rightarrow> Inl KeyError
      | Some current_index \<Rightarrow>
     (case block_dict.index previous_block of
        None \<Rightarrow> Inl KeyError
      | Some previous_index \<Rightarrow>
     if current_index \<noteq> previous_index + 1 then Inr False
     else links_valid_from current_block rest))))"

definition validate_received_chain :: "block_dict list \<Rightarrow> py_error + bool" where
  "validate_received_chain chain_data =
     (case chain_data of
        [] \<Rightarrow> Inr False
      | first # rest \<Rightarrow>
          (case block_dict.index first of
             None \<Rightarrow> Inl KeyError
           | Some first_index \<Rightarrow>
               if first_index \<noteq> 0 then Inr False
               else
                 (case block_dict.previous_hash first of
                    None \<Rightarrow> Inl KeyError
                  | Some first_previous_hash \<Rightarrow>
                      if first_previous_hash \<noteq> ''0'' then Inr False
                      else links_valid_from first rest)))"

text \<open>
  The rebuilding loop of \<open>handle_chain_response\<close>, started on the emptied chain: each
  block built is appended; a KeyError stops the loop with the chain as far as it got.
\<close>

fun rebuild_chain :: "block_dict list \<Rightarrow> block list \<Rightarrow> py_error option \<times> block list" where
  "rebuild_chain [] built = (None, built)"
| "rebuild_chain (received # rest) built =
     (case block_of_dict received of
        Inl e \<Rightarrow> (Some e, built)
      | Inr b \<Rightarrow> rebuild_chain rest (built @ [b]))"

text \<open>
  \<open>handle_chain_response\<close>: the exception raised, if any, and the state the call leaves.
  An exception raised here is caught and printed by \<open>handle_client_connection\<close>, and the
  node goes on with that state.
\<close>

definition handle_chain_response ::
  "block_dict list \<Rightarrow> blockchain \<Rightarrow> py_error option \<times> blockchain" where
  "handle_chain_response chain_data s =
     (if length chain_data > length (chain s) then
        (case validate_received_chain chain_data of
           Inl e \<Rightarrow> (Some e, s)
         | Inr valid \<Rightarrow>
             if valid then
               (case rebuild_chain chain_data [] of
                  (Some e, built) \<Rightarrow> (Some e, s\<lparr>chain := built\<rparr>)
                | (None, built) \<Rightarrow> (None, update_utxo_set (s\<lparr>chain := built\<rparr>)))
             else (None, s))
      else (None, s))"

text \<open>What \<open>send_chain\<close> sends for a block: \<open>block.to_dict()\<close> and the stored hash.\<close>

definition dict_of_transaction :: "transaction \<Rightarrow> transaction_dict" where
  "dict_of_transaction tx =
     \<lparr>transaction_dict.sender = Some (sender tx),
      transaction_dict.recipient = Some (recipient tx),
      transaction_dict.amount = Some (amount tx),
      transaction_dict.transaction_id = Some (transaction_id tx),
      transaction_dict.timestamp = Some (transaction.timestamp tx),
      transaction_dict.signature = signature tx\<rparr>"

definition dict_of_block :: "block \<Rightarrow> block_dict" where
  "dict_of_block b =
     \<lparr>block_dict.index = Some (index b),
      block_dict.timestamp = Some (block.timestamp b),
      block_dict.transactions = Some (map dict_of_transaction (transactions b)),
      block_dict.previous_hash = Some (previous_hash b),
      block_dict.nonce = Some (nonce b),
      block_dict.difficulty = Some (block.difficulty b),
      block_dict.merkle_root = Some (merkle_root b),
      block_dict.hash = Some (hash b)\<rparr>"

text \<open>
  The structural check in the words of the specification: genesis shape, every later
  block linked to the stored hash of the block before it, indices going up by one.
\<close>

definition structural_check :: "block list \<Rightarrow> bool" where
  "structural_check c =
     (c \<noteq> [] \<and>
      index (c ! 0) = 0 \<and>
      previous_hash (c ! 0) = ''0'' \<and>
      (\<forall>i \<in> set [1 ..< length c].
          previous_hash (c ! i) = hash (c ! (i - 1)) \<and>
          index (c ! i) = index (c ! (i - 1)) + 1))"

section \<open>Reference definitions from the specification\<close>

text \<open>
  A valid chain, in the words of the specification: the genesis block is trusted, and every
  later block is linked to the stored hash of the block before it, carries a hash with as
  many leading zeros as its difficulty, and stores its own content hash.
\<close>

definition valid_chain_spec ::
  "(string \<Rightarrow> string) \<Rightarrow> (json \<Rightarrow> string) \<Rightarrow> block list \<Rightarrow> bool" where
  "valid_chain_spec sha dumps c =
     (\<forall>i \<in> set [1 ..< length c].
        previous_hash (c ! i) = hash (c ! (i - 1)) \<and>
        startswith (hash (c ! i)) (zeros (block.difficulty (c ! i))) \<and>
        block_calculate_hash sha dumps (c ! i) = hash (c ! i))"

text \<open>
  The difficulty after an adjustment, in the words of the specification: one more when the
  elapsed time is under half the target, one less (but at least 1) when it is over twice the
  target, the same otherwise.
\<close>

definition spec_adjusted_difficulty :: "real \<Rightarrow> real \<Rightarrow> int \<Rightarrow> int" where
  "spec_adjusted_difficulty elapsed target d =
     (if elapsed < 0.5 * target then d + 1
      else if elapsed > 2.0 * target then max 1 (d - 1)
      else d)"

section \<open>Reachable states\<close>

text \<open>
  The states a node gets to from a fresh \<open>Blockchain\<close> by \<open>add_transaction\<close>,
  \<open>mine_block\<close>, \<open>add_block\<close> and \<open>handle_chain_response\<close>, with any arguments.
  \<open>mine_block\<close> and \<open>add_block\<close> raise, if they do, before they change anything, and a
  search that never returns leaves no state behind: only their returns are steps.
  \<open>handle_chain_response\<close> can raise after it has emptied the chain, so the state it
  leaves is a step whether it raised or not.
\<close>

inductive reachable :: "(string \<Rightarrow> string) \<Rightarrow> (json \<Rightarrow> string) \<Rightarrow> blockchain \<Rightarrow> bool"
  for sha :: "string \<Rightarrow> string" and dumps :: "json \<Rightarrow> string" where
  fresh: "reachable sha dumps (new_blockchain sha dumps d now)"
| submitted: "reachable sha dumps s \<Longrightarrow>
     reachable sha dumps (snd (add_transaction dumps a b amt w t_id t_stamp s))"
| mined: "reachable sha dumps s \<Longrightarrow>
     mine_block sha dumps miner t_block t_id t_stamp t_adjust s = Some (Inr (r, s')) \<Longrightarrow>
     reachable sha dumps s'"
| block_added: "reachable sha dumps s \<Longrightarrow>
     add_block sha dumps b s = Inr (ok, s') \<Longrightarrow> reachable sha dumps s'"
| chain_received: "reachable sha dumps s \<Longrightarrow>
     reachable sha dumps (snd (handle_chain_response chain_data s))"

section \<open>A small instance\<close>

text \<open>
  Stand-ins for the two library functions and for a wallet, small enough to compute with:
  a serialiser that writes the fields one after the other, a checksum printed as eight
  hexadecimal digits, and a wallet that signs with that checksum under a key.
\<close>

primrec toy_dumps :: "json \<Rightarrow> string" where
  "toy_dumps JNull = ''null''"
| "toy_dumps (JStr s) = s"
| "toy_dumps (JInt i) = str_int i"
| "toy_dumps (JNum r) = str_int \<lfloor>r\<rfloor>"
| "toy_dumps (JList xs) = concat (map toy_dumps xs)"
| "toy_dumps (JObj kvs) = concat (map (\<lambda>kv. fst kv @ snd kv) (map (map_prod id toy_dumps) kvs))"

definition toy_sha :: "string \<Rightarrow> string" where
  "toy_sha s =
     (let c = sum_list (map of_char s) mod (16 :: int)
      in map (\<lambda>k. ''0123456789abcdef'' ! nat (c * k mod 16)) [1, 3, 5, 7, 9, 11, 13, 15])"

definition toy_wallet :: wallet where
  "toy_wallet = \<lparr>sign = (\<lambda>m. toy_sha (''key'' @ m)),
                 verify = (\<lambda>m sig. sig = toy_sha (''key'' @ m))\<rparr>"

text \<open>
  Two chains a peer may send: one with every key, whose second block stores a hash that is
  not its content hash; and the same two blocks reduced to the three keys that
  \<open>validate_received_chain\<close> reads.
\<close>

definition example_chain_data :: "block_dict list" where
  "example_chain_data =
     [\<lparr>block_dict.index = Some 0, block_dict.timestamp = Some 1680000000,
       block_dict.transactions = Some [],
       block_dict.previous_hash = Some ''0'', block_dict.nonce = Some 0,
       block_dict.difficulty = Some 1,
       block_dict.merkle_root = Some ''0'', block_dict.hash = Some ''aa''\<rparr>,
      \<lparr>block_dict.index = Some 1, block_dict.timestamp = Some 1680000060,
       block_dict.transactions = Some
         [\<lparr>transaction_dict.sender = Some ''Genesis'',
           transaction_dict.recipient = Some ''mallory'',
           transaction_dict.amount = Some 1000000,
           transaction_dict.transaction_id = Some ''Genesis_mallory_1680000050'',
           transaction_dict.timestamp = Some 1680000050,
           transaction_dict.signature = None\<rparr>],
       block_dict.previous_hash = Some ''aa'', block_dict.nonce = Some 0,
       block_dict.difficulty = Some 1,
       block_dict.merkle_root = Some ''0'', block_dict.hash = Some ''bb''\<rparr>]"

definition example_bare_chain_data :: "block_dict list" where
  "example_bare_chain_data =
     [\<lparr>block_dict.index = Some 0, block_dict.timestamp = None,
       block_dict.transactions = None,
       block_dict.previous_hash = Some ''0'', block_dict.nonce = None,
       block_dict.difficulty = None,
       block_dict.merkle_root = None, block_dict.hash = Some ''aa''\<rparr>,
      \<lparr>block_dict.index = Some 1, block_dict.timestamp = None,
       block_dict.transactions = None,
       block_dict.previous_hash = Some ''aa'', block_dict.nonce = None,
       block_dict.difficulty = None,
       block_dict.merkle_root = None, block_dict.hash = Some ''bb''\<rparr>]"

text \<open>A fresh node, and the node after it was sent \<open>example_bare_chain_data\<close>.\<close>

definition example_fresh :: blockchain where
  "example_fresh = new_blockchain toy_sha toy_dumps 1 1690000001"

definition example_emptied :: blockchain where
  "example_emptied = snd (handle_chain_response example_bare_chain_data example_fresh)"

text \<open>What \<open>mine_block\<close> returned and the state it left, when it returned.\<close>

definition returned_block ::
  "(py_error + block option \<times> blockchain) option \<Rightarrow> block option" where
  "returned_block r = (case r of Some (Inr (Some b, s)) \<Rightarrow> Some b | _ \<Rightarrow> None)"

definition state_after ::
  "(py_error + block option \<times> blockchain) option \<Rightarrow> blockchain option" where
  "state_after r = (case r of Some (Inr (Some b, s)) \<Rightarrow> Some s | _ \<Rightarrow> None)"

text \<open>
  A node started with difficulty 2 that has admitted one transaction from "Genesis"; the
  block it mines and the state mining leaves (\<open>example_mined_is_mined\<close> below); and that
  state with a payment from alice pending.
\<close>

definition example_state :: blockchain where
  "example_state =
     snd (add_transaction toy_dumps ''Genesis'' ''alice'' 100 toy_wallet 1700000000 1700000000
            (new_blockchain toy_sha toy_dumps 2 1690000001))"

definition example_mining :: "(py_error + block option \<times> blockchain) option" where
  "example_mining =
     mine_block toy_sha toy_dumps ''mike'' 1700000010 1700000010 1700000010 1700000020
       example_state"

definition example_block :: block where
  "example_block =
     \<lparr>index = 1, timestamp = 1700000010,
      transactions =
        [\<lparr>sender = ''Genesis'', recipient = ''alice'', amount = 100,
          transaction_id = ''Genesis_alice_1700000000'', timestamp = 1700000000,
          signature = Some ''ea62ea62''\<rparr>,
         \<lparr>sender = ''System'', recipient = ''mike'', amount = 50,
          transaction_id = ''reward_1_1700000010'', timestamp = 1700000010,
          signature = None\<rparr>],
      previous_hash = ''13579bdf'', nonce = 3, difficulty = 2,
      merkle_root = ''13579bdf'', hash = ''00000000''\<rparr>"

definition example_mined :: blockchain where
  "example_mined =
     \<lparr>chain =
        [\<lparr>index = 0, timestamp = 1690000001, transactions = [], previous_hash = ''0'',
          nonce = 0, difficulty = 2, merkle_root = ''0'', hash = ''13579bdf''\<rparr>,
         example_block],
      pending_transactions = [], difficulty = 2,
      utxo_set = [''alice'' \<mapsto> 100, ''mike'' \<mapsto> 50],
      mining_reward = 50, target_block_time = 10, last_mining_time = 1700000020\<rparr>"

definition example_pending :: blockchain where
  "example_pending =
     snd (add_transaction toy_dumps ''alice'' ''bob'' 10 toy_wallet 1700000021 1700000021
            example_mined)"

definition example_second_mining :: "(py_error + block option \<times> blockchain) option" where
  "example_second_mining =
     mine_block toy_sha toy_dumps ''mike'' 1700000022 1700000022 1700000022 1700000023
       example_pending"

text \<open>
  A node that has adopted \<open>example_chain_data\<close>, whose last block stores the hash "bb",
  and then admitted a transaction.
\<close>

definition example_adopted :: blockchain where
  "example_adopted =
     snd (add_transaction toy_dumps ''Genesis'' ''alice'' 100 toy_wallet 1700000000 1700000000
            (snd (handle_chain_response example_chain_data
                    (new_blockchain toy_sha toy_dumps 1 1690000001))))"

text \<open>Replacing the signature of every transaction of a block, and the block of a chain.\<close>

definition resign :: "string option \<Rightarrow> block \<Rightarrow> block" where
  "resign sig b = b\<lparr>transactions := map (\<lambda>tx. tx\<lparr>signature := sig\<rparr>) (transactions b)\<rparr>"

definition with_block :: "nat \<Rightarrow> block \<Rightarrow> blockchain \<Rightarrow> blockchain" where
  "with_block i b s = s\<lparr>chain := (chain s)[i := b]\<rparr>"

section \<open>Merkle root: the code computes the reference definition\<close>

lemma hash_pairs_pad_level: "hash_pairs sha (pad_level hs) = spec_pair_up sha hs"
proof (induction sha hs rule: spec_pair_up.induct)
  case (3 sha a b hs)
  have "pad_level (a # b # hs) = a # b # pad_level hs"
    by (cases hs) (simp_all add: pad_level_def)
  with 3 show ?case by simp
qed (simp_all add: pad_level_def)

lemma merkle_loop_spec_reduce: "hs \<noteq> [] \<Longrightarrow> merkle_loop sha hs = [spec_reduce sha hs]"
proof (induction sha hs rule: spec_reduce.induct)
  case (1 sha)
  then show ?case by simp
next
  case (2 sha r)
  show ?case by (simp add: merkle_loop.simps)
next
  case (3 sha a b hs)
  have "merkle_loop sha (a # b # hs) = merkle_loop sha (spec_pair_up sha (a # b # hs))"
    by (subst merkle_loop.simps) (simp add: hash_pairs_pad_level)
  also have "\<dots> = [spec_reduce sha (spec_pair_up sha (a # b # hs))]"
    using 3 by simp
  finally show ?case by simp
qed

text \<open>
  C8. \<open>calculate_merkle_root\<close> equals the reference definition: the sentinel "0" for no
  transactions, and otherwise the one hash left after pairing the transaction hashes level
  by level, an odd level counting its last hash twice.
\<close>

theorem calculate_merkle_root_refines_spec:
  "calculate_merkle_root sha dumps txs = merkle_root_spec sha dumps txs"
  by (simp add: calculate_merkle_root_def merkle_root_spec_def merkle_loop_spec_reduce)

section \<open>Mempool admission\<close>

text \<open>
  C5. \<open>add_transaction\<close> changes the mempool only when it succeeds: insufficient balance,
  a signature that does not verify and a conflicting pending spend each return False with
  the state as it was; a call that returns False leaves the state unchanged, and a call that
  returns True leaves the chain and appends the signed transaction to the mempool.
\<close>

theorem add_transaction_failure_leaves_state:
  "(a \<noteq> ''Genesis'' \<and> get_balance s a < amt \<longrightarrow>
      add_transaction dumps a b amt w t_id t_stamp s = (False, s)) \<and>
   (\<not> verify w (dumps (transaction_to_dict (new_transaction a b amt t_id t_stamp)))
        (sign w (dumps (transaction_to_dict (new_transaction a b amt t_id t_stamp)))) \<longrightarrow>
      add_transaction dumps a b amt w t_id t_stamp s = (False, s)) \<and>
   (\<not> is_valid_transaction s
        ((new_transaction a b amt t_id t_stamp)
           \<lparr>signature := Some (sign w (dumps (transaction_to_dict
                                 (new_transaction a b amt t_id t_stamp))))\<rparr>) \<longrightarrow>
      add_transaction dumps a b amt w t_id t_stamp s = (False, s)) \<and>
   (\<not> fst (add_transaction dumps a b amt w t_id t_stamp s) \<longrightarrow>
      snd (add_transaction dumps a b amt w t_id t_stamp s) = s) \<and>
   (fst (add_transaction dumps a b amt w t_id t_stamp s) \<longrightarrow>
      chain (snd (add_transaction dumps a b amt w t_id t_stamp s)) = chain s \<and>
      pending_transactions (snd (add_transaction dumps a b amt w t_id t_stamp s)) =
        pending_transactions s @
          [(new_transaction a b amt t_id t_stamp)
             \<lparr>signature := Some (sign w (dumps (transaction_to_dict
                                   (new_transaction a b amt t_id t_stamp))))\<rparr>])"
  by (simp add: add_transaction_def Let_def transaction_to_dict_def)

theorem add_transaction_failure_leaves_state_witness:
  "add_transaction toy_dumps ''alice'' ''bob'' 5 toy_wallet 1700000000 1700000000
       (new_blockchain toy_sha toy_dumps 1 1690000000)
     = (False, new_blockchain toy_sha toy_dumps 1 1690000000)"
proof -
  have "get_balance (new_blockchain toy_sha toy_dumps 1 1690000000) ''alice'' < 5"
    by (simp add: get_balance_def new_blockchain_def create_genesis_block_def)
  with add_transaction_failure_leaves_state
         [of "''alice''" "new_blockchain toy_sha toy_dumps 1 1690000000" 5 toy_dumps "''bob''"
             toy_wallet 1700000000 1700000000]
  show ?thesis by simp
qed

section \<open>Balances and the unspent-output table\<close>

lemma get_balance_cong:
  "chain s = chain s' \<Longrightarrow> pending_transactions s = pending_transactions s' \<Longrightarrow>
     get_balance s a = get_balance s' a"
  by (simp add: get_balance_def)

lemma is_valid_transaction_cong:
  "chain s = chain s' \<Longrightarrow> pending_transactions s = pending_transactions s' \<Longrightarrow>
     is_valid_transaction s tx = is_valid_transaction s' tx"
  by (simp add: is_valid_transaction_def get_balance_def)

lemma utxo_credit_sender: "utxo_credit u (tx\<lparr>sender := x\<rparr>) = utxo_credit u tx"
  by (simp add: utxo_credit_def split: option.split)

lemma foldl_utxo_credit_sender:
  "foldl utxo_credit u (map (\<lambda>tx. tx\<lparr>sender := f tx\<rparr>) txs) = foldl utxo_credit u txs"
  by (induction txs arbitrary: u) (simp_all add: utxo_credit_sender)

text \<open>
  C10. Two states with the same chain and the same mempool give every address the same
  balance, whatever their \<open>utxo_set\<close> (and their other fields) hold; the admission check and
  \<open>add_transaction\<close> answer the same and leave the same mempool. The table is written by
  \<open>update_utxo_set\<close> and read by nothing.
\<close>

theorem utxo_set_never_read:
  "chain s = chain s' \<Longrightarrow> pending_transactions s = pending_transactions s' \<Longrightarrow>
     get_balance s a = get_balance s' a \<and>
     is_valid_transaction s tx = is_valid_transaction s' tx \<and>
     fst (add_transaction dumps a b amt w t_id t_stamp s) =
       fst (add_transaction dumps a b amt w t_id t_stamp s') \<and>
     pending_transactions (snd (add_transaction dumps a b amt w t_id t_stamp s)) =
       pending_transactions (snd (add_transaction dumps a b amt w t_id t_stamp s'))"
proof -
  assume same: "chain s = chain s'" "pending_transactions s = pending_transactions s'"
  have bal: "get_balance s x = get_balance s' x" for x
    using same by (rule get_balance_cong)
  have val: "is_valid_transaction s t = is_valid_transaction s' t" for t
    using same by (rule is_valid_transaction_cong)
  show ?thesis
    by (simp add: add_transaction_def Let_def bal val same)
qed

theorem utxo_set_never_read_witness:
  "get_balance ((new_blockchain toy_sha toy_dumps 1 1690000000)
                  \<lparr>utxo_set := [''alice'' \<mapsto> 1000]\<rparr>) ''alice''
     = get_balance (new_blockchain toy_sha toy_dumps 1 1690000000) ''alice'' \<and>
   fst (add_transaction toy_dumps ''alice'' ''bob'' 5 toy_wallet 1700000000 1700000000
          ((new_blockchain toy_sha toy_dumps 1 1690000000)
             \<lparr>utxo_set := [''alice'' \<mapsto> 1000]\<rparr>))
     = fst (add_transaction toy_dumps ''alice'' ''bob'' 5 toy_wallet 1700000000 1700000000
              (new_blockchain toy_sha toy_dumps 1 1690000000))"
  using utxo_set_never_read
    [of "(new_blockchain toy_sha toy_dumps 1 1690000000)\<lparr>utxo_set := [''alice'' \<mapsto> 1000]\<rparr>"
        "new_blockchain toy_sha toy_dumps 1 1690000000" "''alice''" undefined toy_dumps
        "''bob''" 5 toy_wallet 1700000000 1700000000]
  by simp

section \<open>Chain adoption\<close>

lemma ball_upt_Suc:
  "(\<forall>i \<in> set [1 ..< Suc n]. P i) \<longleftrightarrow> (\<forall>j < n. P (Suc j))"
proof
  assume h: "\<forall>i \<in> set [1 ..< Suc n]. P i"
  show "\<forall>j < n. P (Suc j)"
  proof (intro allI impI)
    fix j assume "j < n"
    then have "Suc j \<in> set [1 ..< Suc n]" by (simp del: upt_Suc)
    with h show "P (Suc j)" by blast
  qed
next
  assume h: "\<forall>j < n. P (Suc j)"
  show "\<forall>i \<in> set [1 ..< Suc n]. P i"
  proof
    fix i assume "i \<in> set [1 ..< Suc n]"
    then have "1 \<le> i \<and> i < Suc n" by (simp del: upt_Suc)
    then obtain j where "i = Suc j" "j < n" by (cases i) auto
    with h show "P i" by simp
  qed
qed

text \<open>A chain as \<open>send_chain\<close> writes it has every key, and is rebuilt as it was.\<close>

lemma transaction_of_dict_complete: "transaction_of_dict (dict_of_transaction tx) = Inr tx"
  by (simp add: transaction_of_dict_def dict_of_transaction_def)

lemma transactions_of_dicts_complete:
  "transactions_of_dicts (map dict_of_transaction txs) = Inr txs"
  by (induction txs) (simp_all add: transaction_of_dict_complete)

lemma block_of_dict_complete: "block_of_dict (dict_of_block b) = Inr b"
  by (simp add: block_of_dict_def dict_of_block_def transactions_of_dicts_complete)

lemma rebuild_chain_complete:
  "rebuild_chain (map dict_of_block c) built = (None, built @ c)"
  by (induction c arbitrary: built) (simp_all add: block_of_dict_complete)

lemma dict_of_block_index: "block_dict.index (dict_of_block b) = Some (index b)"
  by (simp add: dict_of_block_def)

lemma dict_of_block_previous_hash:
  "block_dict.previous_hash (dict_of_block b) = Some (previous_hash b)"
  by (simp add: dict_of_block_def)

lemma dict_of_block_hash: "block_dict.hash (dict_of_block b) = Some (hash b)"
  by (simp add: dict_of_block_def)

lemmas dict_of_block_keys = dict_of_block_index dict_of_block_previous_hash dict_of_block_hash

lemma links_valid_from_complete:
  "links_valid_from (dict_of_block p) (map dict_of_block rest) =
     Inr (\<forall>i < length rest.
            previous_hash (rest ! i) = hash ((p # rest) ! i) \<and>
            index (rest ! i) = index ((p # rest) ! i) + 1)"
proof (induction rest arbitrary: p)
  case Nil
  show ?case by simp
next
  case (Cons c rest)
  show ?case
    by (auto simp add: Cons.IH All_less_Suc2 dict_of_block_keys)
qed

lemma validate_received_chain_complete:
  "validate_received_chain (map dict_of_block c) = Inr (structural_check c)"
proof (cases c)
  case Nil
  then show ?thesis by (simp add: validate_received_chain_def structural_check_def)
next
  case (Cons first rest)
  have "(\<forall>i \<in> set [1 ..< length (first # rest)].
           previous_hash ((first # rest) ! i) = hash ((first # rest) ! (i - 1)) \<and>
           index ((first # rest) ! i) = index ((first # rest) ! (i - 1)) + 1)
        \<longleftrightarrow> (\<forall>i < length rest.
              previous_hash (rest ! i) = hash ((first # rest) ! i) \<and>
              index (rest ! i) = index ((first # rest) ! i) + 1)"
    unfolding length_Cons ball_upt_Suc by simp
  with Cons show ?thesis
    by (auto simp add: validate_received_chain_def structural_check_def
          links_valid_from_complete dict_of_block_keys)
qed

lemma handle_chain_response_complete:
  "handle_chain_response (map dict_of_block c) s =
     (None, if length c > length (chain s) \<and> structural_check c
            then update_utxo_set (s\<lparr>chain := c\<rparr>)
            else s)"
  by (simp add: handle_chain_response_def validate_received_chain_complete
        rebuild_chain_complete)

text \<open>
  C4 says the received chain replaces the local one exactly when it is strictly longer and
  passes the structural check, and that the local chain is otherwise left unchanged. For a
  chain as \<open>send_chain\<close> writes it that is what happens
  (\<open>handle_chain_response_complete\<close>). For \<open>example_bare_chain_data\<close>, which is longer
  than the local chain and passes the check but lacks the keys the rebuilding loop reads,
  the code has emptied the local chain when the loop raises KeyError: the node is left
  with no chain, neither the received one nor its own.
\<close>

theorem handle_chain_response_empties_chain:
  "validate_received_chain example_bare_chain_data = Inr True \<and>
   length (chain example_fresh) < length example_bare_chain_data \<and>
   length (chain example_fresh) = 1 \<and>
   fst (handle_chain_response example_bare_chain_data example_fresh) = Some KeyError \<and>
   chain (snd (handle_chain_response example_bare_chain_data example_fresh)) = []"
  by code_simp

section \<open>The genesis block stays first\<close>

lemma chain_adjust_difficulty: "chain (adjust_difficulty t s) = chain s"
  by (simp add: adjust_difficulty_def Let_def)

lemma chain_update_utxo_set: "chain (update_utxo_set s) = chain s"
  by (simp add: update_utxo_set_def)

lemma chain_add_transaction: "chain (snd (add_transaction dumps a b amt w t_id t_stamp s)) = chain s"
  by (simp add: add_transaction_def Let_def)

lemma chain_mine_block:
  assumes "mine_block sha dumps miner t_block t_id t_stamp t_adjust s = Some (Inr (r, s'))"
  shows "chain s' = chain s \<or> (\<exists>b. chain s' = chain s @ [b] \<and> chain s \<noteq> [])"
  using assms
  by (auto simp add: mine_block_def get_latest_block_def Let_def chain_adjust_difficulty
        chain_update_utxo_set split: if_splits option.splits sum.splits)

lemma chain_add_block:
  assumes "add_block sha dumps b s = Inr (ok, s')"
  shows "chain s' = chain s \<or> (chain s' = chain s @ [b] \<and> chain s \<noteq> [])"
  using assms
  by (auto simp add: add_block_def is_block_valid_def get_latest_block_def
        chain_update_utxo_set split: if_splits sum.splits)

text \<open>What the rebuilding loop has built when it stops, raised or not.\<close>

lemma rebuild_chain_prefix:
  assumes "rebuild_chain ds built = (r, out)"
  shows "\<exists>bs. out = built @ bs \<and>
              (bs \<noteq> [] \<longrightarrow> ds \<noteq> [] \<and> block_of_dict (hd ds) = Inr (hd bs)) \<and>
              (r = None \<longrightarrow> length bs = length ds)"
  using assms
proof (induction ds arbitrary: built)
  case Nil
  then show ?case by simp
next
  case (Cons d ds)
  show ?case
  proof (cases "block_of_dict d")
    case (Inl e)
    with Cons.prems show ?thesis by auto
  next
    case (Inr b)
    with Cons.prems have "rebuild_chain ds (built @ [b]) = (r, out)" by simp
    from Cons.IH [OF this] obtain bs where
      "out = (built @ [b]) @ bs" and "r = None \<longrightarrow> length bs = length ds"
      by blast
    with Inr show ?thesis by (intro exI [of _ "b # bs"]) simp
  qed
qed

lemma block_of_dict_keys:
  assumes "block_of_dict d = Inr b"
  shows "block_dict.index d = Some (index b) \<and>
         block_dict.previous_hash d = Some (previous_hash b)"
  using assms
  by (auto simp add: block_of_dict_def split: option.splits sum.splits)

lemma validate_received_chain_genesis:
  assumes "validate_received_chain chain_data = Inr True"
  shows "chain_data \<noteq> [] \<and> block_dict.index (hd chain_data) = Some 0 \<and>
         block_dict.previous_hash (hd chain_data) = Some ''0''"
  using assms
  by (cases chain_data)
     (auto simp add: validate_received_chain_def split: option.splits if_splits)

lemma chain_handle_chain_response:
  "chain (snd (handle_chain_response chain_data s)) = chain s \<or>
   chain (snd (handle_chain_response chain_data s)) = [] \<or>
   (index (hd (chain (snd (handle_chain_response chain_data s)))) = 0 \<and>
    previous_hash (hd (chain (snd (handle_chain_response chain_data s)))) = ''0'')"
proof (cases "length chain_data > length (chain s) \<and>
              validate_received_chain chain_data = Inr True")
  case False
  then show ?thesis
    by (auto simp add: handle_chain_response_def split: sum.splits)
next
  case True
  obtain r out where rb: "rebuild_chain chain_data [] = (r, out)"
    by (cases "rebuild_chain chain_data []")
  with True have c: "chain (snd (handle_chain_response chain_data s)) = out"
    by (cases r) (simp_all add: handle_chain_response_def chain_update_utxo_set)
  show ?thesis
  proof (cases "out = []")
    case True
    with c show ?thesis by simp
  next
    case False
    with rebuild_chain_prefix [OF rb]
    have "block_of_dict (hd chain_data) = Inr (hd out)" by auto
    from block_of_dict_keys [OF this] validate_received_chain_genesis [of chain_data] True
    have "index (hd out) = 0 \<and> previous_hash (hd out) = ''0''" by simp
    with c show ?thesis by simp
  qed
qed

text \<open>
  What does hold in every reachable state: the chain is empty, or its first block has index 0
  and previous hash "0".
\<close>

lemma reachable_genesis_first_or_empty:
  assumes "reachable sha dumps s"
  shows "chain s = [] \<or> (index (hd (chain s)) = 0 \<and> previous_hash (hd (chain s)) = ''0'')"
  using assms
proof (induction rule: reachable.induct)
  case (fresh d now)
  show ?case by (simp add: new_blockchain_def create_genesis_block_def)
next
  case (submitted s a b amt w t_id t_stamp)
  then show ?case by (simp add: chain_add_transaction)
next
  case (mined s miner t_block t_id t_stamp t_adjust r s')
  from chain_mine_block [OF mined.hyps(2)] mined.IH show ?case by auto
next
  case (block_added s b ok s')
  from chain_add_block [OF block_added.hyps(2)] block_added.IH show ?case by auto
next
  case (chain_received s chain_data)
  from chain_handle_chain_response [of chain_data s] chain_received.IH
  show ?case by auto
qed

lemma example_emptied_reachable: "reachable toy_sha toy_dumps example_emptied"
  unfolding example_emptied_def example_fresh_def
  by (intro reachable.chain_received reachable.fresh)

text \<open>
  C9 says the chain is never empty in a reachable state. \<open>example_emptied\<close> is reachable
  (\<open>example_emptied_reachable\<close>): a fresh node that was sent \<open>example_bare_chain_data\<close>.
  Its chain is empty, and once a transaction is pending \<open>mine_block\<close> raises IndexError
  on it. The defect is the one of C4: \<open>handle_chain_response\<close> empties the chain before a
  loop that can raise.
\<close>

theorem reachable_chain_emptied:
  "chain example_emptied = [] \<and>
   pending_transactions
     (snd (add_transaction toy_dumps ''Genesis'' ''alice'' 100 toy_wallet 1700000000 1700000000
             example_emptied)) \<noteq> [] \<and>
   mine_block toy_sha toy_dumps ''mike'' 1700000010 1700000010 1700000010 1700000020
     (snd (add_transaction toy_dumps ''Genesis'' ''alice'' 100 toy_wallet 1700000000 1700000000
             example_emptied))
     = Some (Inl IndexError)"
proof -
  let ?s = "snd (add_transaction toy_dumps ''Genesis'' ''alice'' 100 toy_wallet 1700000000
                   1700000000 example_emptied)"
  have c: "chain example_emptied = []" by code_simp
  then have c': "chain ?s = []" by (simp add: chain_add_transaction)
  have p: "pending_transactions ?s \<noteq> []" by code_simp
  from c c' p show ?thesis
    by (simp add: mine_block_def get_latest_block_def)
qed

section \<open>Mining\<close>

lemma block_calculate_hash_hash_update [simp]:
  "block_calculate_hash sha dumps (b\<lparr>hash := h\<rparr>) = block_calculate_hash sha dumps b"
  by (simp add: block_calculate_hash_def block_data_def)

lemma mine_loop_result:
  assumes "mine_loop sha dumps target b = Some m"
  shows "startswith (block_calculate_hash sha dumps m) target \<and>
         (\<exists>n. nonce b < n \<and> m = b\<lparr>nonce := n\<rparr>)"
proof (rule mine_loop.raw_induct [OF _ assms])
  fix loop :: "(string \<Rightarrow> string) \<Rightarrow> (json \<Rightarrow> string) \<Rightarrow> string \<Rightarrow> block \<Rightarrow> block option"
    and sha dumps target b m
  assume IH: "\<And>sha dumps target b m. loop sha dumps target b = Some m \<Longrightarrow>
                startswith (block_calculate_hash sha dumps m) target \<and>
                (\<exists>n. nonce b < n \<and> m = b\<lparr>nonce := n\<rparr>)"
    and step: "(if startswith (block_calculate_hash sha dumps (b\<lparr>nonce := nonce b + 1\<rparr>)) target
                then Some (b\<lparr>nonce := nonce b + 1\<rparr>)
                else loop sha dumps target (b\<lparr>nonce := nonce b + 1\<rparr>)) = Some m"
  show "startswith (block_calculate_hash sha dumps m) target \<and>
        (\<exists>n. nonce b < n \<and> m = b\<lparr>nonce := n\<rparr>)"
  proof (cases "startswith (block_calculate_hash sha dumps (b\<lparr>nonce := nonce b + 1\<rparr>)) target")
    case True
    with step have "m = b\<lparr>nonce := nonce b + 1\<rparr>" by simp
    with True show ?thesis by (intro conjI exI [of _ "nonce b + 1"]) simp_all
  next
    case False
    with step have "loop sha dumps target (b\<lparr>nonce := nonce b + 1\<rparr>) = Some m" by simp
    from IH [OF this] obtain n
      where "startswith (block_calculate_hash sha dumps m) target"
        and "nonce b + 1 < n" and "m = b\<lparr>nonce := n\<rparr>"
      by auto
    then show ?thesis by (intro conjI exI [of _ n]) simp_all
  qed
qed

lemma mine_block_returns:
  assumes "mine_block sha dumps miner t_block t_id t_stamp t_adjust s = Some (Inr (Some b, s'))"
  obtains previous_block n where
    "chain s \<noteq> []" "previous_block = last (chain s)" "pending_transactions s \<noteq> []"
    "0 < n"
    "mine_loop sha dumps (zeros (blockchain.difficulty s))
       (candidate_block sha dumps miner t_block t_id t_stamp s previous_block)
     = Some ((candidate_block sha dumps miner t_block t_id t_stamp s previous_block)\<lparr>nonce := n\<rparr>)"
    "b = (candidate_block sha dumps miner t_block t_id t_stamp s previous_block)
           \<lparr>nonce := n,
            hash := block_calculate_hash sha dumps
              ((candidate_block sha dumps miner t_block t_id t_stamp s previous_block)
                 \<lparr>nonce := n\<rparr>)\<rparr>"
    "s' = adjust_difficulty t_adjust
            (update_utxo_set (s\<lparr>chain := chain s @ [b], pending_transactions := []\<rparr>))"
proof -
  from assms have pend: "pending_transactions s \<noteq> []" and ne: "chain s \<noteq> []"
    by (auto simp add: mine_block_def get_latest_block_def split: if_splits)
  let ?c = "candidate_block sha dumps miner t_block t_id t_stamp s (last (chain s))"
  from assms pend ne obtain m where
    m: "mine_loop sha dumps (zeros (blockchain.difficulty s)) ?c = Some m"
    and b: "b = m\<lparr>hash := block_calculate_hash sha dumps m\<rparr>"
    and s': "s' = adjust_difficulty t_adjust
            (update_utxo_set (s\<lparr>chain := chain s @ [b], pending_transactions := []\<rparr>))"
    by (auto simp add: mine_block_def get_latest_block_def Let_def split: option.splits)
  from mine_loop_result [OF m] obtain n where n: "nonce ?c < n" "m = ?c\<lparr>nonce := n\<rparr>"
    by auto
  have "nonce ?c = 0" by (simp add: candidate_block_def Let_def)
  with n have "0 < n" by simp
  with that [of "last (chain s)" n] ne pend m b s' n show thesis by simp
qed

text \<open>
  C3. Whenever \<open>mine_block\<close> returns a block, the block stores its own content hash,
  carries the difficulty the node had when mining began, and its hash begins with that many
  characters "0" (none being asked for a difficulty of zero or less).
\<close>

theorem mine_block_proof_of_work:
  assumes "mine_block sha dumps miner t_block t_id t_stamp t_adjust s = Some (Inr (Some b, s'))"
  shows "hash b = block_calculate_hash sha dumps b \<and>
         block.difficulty b = blockchain.difficulty s \<and>
         startswith (hash b) (zeros (blockchain.difficulty s)) \<and>
         nat (blockchain.difficulty s) \<le> length (hash b) \<and>
         (\<forall>i < nat (blockchain.difficulty s). hash b ! i = CHR ''0'')"
proof -
  from assms obtain p n where
    loop: "mine_loop sha dumps (zeros (blockchain.difficulty s))
             (candidate_block sha dumps miner t_block t_id t_stamp s p)
           = Some ((candidate_block sha dumps miner t_block t_id t_stamp s p)\<lparr>nonce := n\<rparr>)"
    and b: "b = (candidate_block sha dumps miner t_block t_id t_stamp s p)
           \<lparr>nonce := n,
            hash := block_calculate_hash sha dumps
              ((candidate_block sha dumps miner t_block t_id t_stamp s p)\<lparr>nonce := n\<rparr>)\<rparr>"
    by (rule mine_block_returns)
  from b have stored: "hash b = block_calculate_hash sha dumps b" by simp
  from b have diff: "block.difficulty b = blockchain.difficulty s"
    by (simp add: candidate_block_def Let_def)
  from mine_loop_result [OF loop] b
  have pow: "startswith (hash b) (zeros (blockchain.difficulty s))" by simp
  then have tk: "take (nat (blockchain.difficulty s)) (hash b)
                   = replicate (nat (blockchain.difficulty s)) CHR ''0''"
    by (simp add: startswith_def zeros_def)
  have len: "nat (blockchain.difficulty s) \<le> length (hash b)"
  proof -
    from tk have "length (take (nat (blockchain.difficulty s)) (hash b))
                    = nat (blockchain.difficulty s)"
      by simp
    then show ?thesis by simp
  qed
  have "hash b ! i = CHR ''0''" if "i < nat (blockchain.difficulty s)" for i
  proof -
    from that have "hash b ! i = take (nat (blockchain.difficulty s)) (hash b) ! i" by simp
    also from that have "\<dots> = CHR ''0''" unfolding tk by simp
    finally show ?thesis .
  qed
  with stored diff pow len show ?thesis by blast
qed



lemma returned_blockD:
  assumes "returned_block r = Some b"
  shows "r = Some (Inr (Some b, the (state_after r)))"
  using assms
  by (auto simp add: returned_block_def state_after_def split: option.splits sum.splits prod.splits)

lemma example_mining_block: "returned_block example_mining = Some example_block"
  by code_simp

lemma example_mined_is_mined:
  "map_option (\<lambda>s. (chain s, pending_transactions s, blockchain.difficulty s,
                     mining_reward s, target_block_time s, last_mining_time s,
                     map (utxo_set s) [''alice'', ''mike'', ''Genesis'']))
     (state_after example_mining)
   = Some (chain example_mined, pending_transactions example_mined,
           blockchain.difficulty example_mined, mining_reward example_mined,
           target_block_time example_mined, last_mining_time example_mined,
           map (utxo_set example_mined) [''alice'', ''mike'', ''Genesis''])"
  by code_simp

theorem mine_block_proof_of_work_witness:
  "map_option nonce (returned_block example_mining) = Some 3 \<and>
   map_option hash (returned_block example_mining) = Some ''00000000'' \<and>
   map_option (block_calculate_hash toy_sha toy_dumps) (returned_block example_mining)
     = Some ''00000000'' \<and>
   blockchain.difficulty example_state = 2"
proof -
  note r = returned_blockD [OF example_mining_block]
  have d: "blockchain.difficulty example_state = 2" by code_simp
  from mine_block_proof_of_work [OF r [unfolded example_mining_def]] d
  show ?thesis by (simp add: example_mining_block example_block_def)
qed

section \<open>Linking a mined block\<close>

lemma mine_block_previous_hash:
  assumes "mine_block sha dumps miner t_block t_id t_stamp t_adjust s = Some (Inr (Some b, s'))"
  shows "previous_hash b = block_calculate_hash sha dumps (last (chain s))"
proof -
  from assms obtain p n where "p = last (chain s)"
    and "b = (candidate_block sha dumps miner t_block t_id t_stamp s p)
           \<lparr>nonce := n,
            hash := block_calculate_hash sha dumps
              ((candidate_block sha dumps miner t_block t_id t_stamp s p)\<lparr>nonce := n\<rparr>)\<rparr>"
    by (rule mine_block_returns)
  then show ?thesis by (simp add: candidate_block_def Let_def)
qed

lemma mine_block_links_to_stored_hash:
  assumes "mine_block sha dumps miner t_block t_id t_stamp t_adjust s = Some (Inr (Some b, s'))"
    and "hash (last (chain s)) = block_calculate_hash sha dumps (last (chain s))"
  shows "previous_hash b = hash (last (chain s))"
  using mine_block_previous_hash [OF assms(1)] assms(2) by simp

text \<open>
  C6 says the block \<open>mine_block\<close> appends has \<open>previous_hash\<close> equal to the stored hash
  of the chain head. The code links to the head's recomputed content hash instead
  (\<open>mine_block_previous_hash\<close>), which is the stored hash only where the head stores its
  own content hash (\<open>mine_block_links_to_stored_hash\<close>). On the node that adopted
  \<open>example_chain_data\<close>, whose head stores "bb", the mined block gets the recomputed
  "88888888": the validators, which compare with the stored hash, reject the link.
\<close>

theorem mine_block_links_to_recomputed_hash:
  "map_option previous_hash
     (returned_block (mine_block toy_sha toy_dumps ''frank'' 1700000010 1700000010 1700000010
                        1700000020 example_adopted)) = Some ''88888888'' \<and>
   hash (last (chain example_adopted)) = ''bb'' \<and>
   block_calculate_hash toy_sha toy_dumps (last (chain example_adopted)) = ''88888888''"
  by code_simp

section \<open>Difficulty adjustment\<close>

lemma mine_block_adjusts:
  assumes "mine_block sha dumps miner t_block t_id t_stamp t_adjust s = Some (Inr (Some b, s'))"
  shows "s' = adjust_difficulty t_adjust
                (update_utxo_set (s\<lparr>chain := chain s @ [b], pending_transactions := []\<rparr>))
         \<and> chain s \<noteq> []"
proof -
  from assms obtain p :: block and n :: int where "chain s \<noteq> []"
    and "s' = adjust_difficulty t_adjust
            (update_utxo_set (s\<lparr>chain := chain s @ [b], pending_transactions := []\<rparr>))"
    by (rule mine_block_returns)
  then show ?thesis by simp
qed

text \<open>
  C7, as the code has it. After a successful \<open>mine_block\<close>, if an earlier adjustment check
  is on record (\<open>last_mining_time\<close> above 0), the difficulty is what the specification says
  for the time elapsed since then: one more under half the target, one less but at least 1
  over twice the target, unchanged otherwise. With no check on record the difficulty is left
  as it was. Either way the time of this check is recorded.
\<close>

theorem mine_block_adjusts_difficulty:
  assumes "mine_block sha dumps miner t_block t_id t_stamp t_adjust s = Some (Inr (Some b, s'))"
  shows "blockchain.difficulty s' =
           (if 0 < last_mining_time s
            then spec_adjusted_difficulty (t_adjust - last_mining_time s) (target_block_time s)
                   (blockchain.difficulty s)
            else blockchain.difficulty s) \<and>
         last_mining_time s' = t_adjust"
proof -
  from mine_block_adjusts [OF assms]
  have s': "s' = adjust_difficulty t_adjust
                (update_utxo_set (s\<lparr>chain := chain s @ [b], pending_transactions := []\<rparr>))"
    and ne: "chain s \<noteq> []"
    by simp_all
  from ne have long: "\<not> length (chain s @ [b]) < 2" by (cases "chain s") simp_all
  have "adjust_difficulty t_adjust
          (update_utxo_set (s\<lparr>chain := chain s @ [b], pending_transactions := []\<rparr>))
        = (let s0 = update_utxo_set (s\<lparr>chain := chain s @ [b], pending_transactions := []\<rparr>);
               s1 = (if last_mining_time s0 > 0 then
                       (if t_adjust - last_mining_time s0 < target_block_time s0 * 0.5
                        then s0\<lparr>difficulty := blockchain.difficulty s0 + 1\<rparr>
                        else if t_adjust - last_mining_time s0 > target_block_time s0 * 2.0
                        then s0\<lparr>difficulty := max 1 (blockchain.difficulty s0 - 1)\<rparr>
                        else s0)
                     else s0)
           in s1\<lparr>last_mining_time := t_adjust\<rparr>)"
    using long by (simp add: adjust_difficulty_def update_utxo_set_def Let_def)
  then show ?thesis
    unfolding s'
    by (simp add: update_utxo_set_def Let_def spec_adjusted_difficulty_def mult.commute)
qed

lemma example_second_mining_returns: "returned_block example_second_mining \<noteq> None"
  by code_simp

theorem mine_block_adjusts_difficulty_witness:
  "0 < last_mining_time example_pending \<and>
   1700000023 - last_mining_time example_pending < 0.5 * target_block_time example_pending \<and>
   blockchain.difficulty example_pending = 2 \<and>
   blockchain.difficulty (the (state_after example_second_mining)) = 3 \<and>
   last_mining_time (the (state_after example_second_mining)) = 1700000023"
proof -
  from example_second_mining_returns obtain b where "returned_block example_second_mining = Some b"
    by auto
  note r = returned_blockD [OF this]
  have before: "last_mining_time example_pending = 1700000020"
    "target_block_time example_pending = 10" "blockchain.difficulty example_pending = 2"
    by code_simp+
  from mine_block_adjusts_difficulty [OF r [unfolded example_second_mining_def]] before
  show ?thesis
    by (simp add: spec_adjusted_difficulty_def example_second_mining_def)
qed

text \<open>
  On a fresh node \<open>last_mining_time\<close> is 0: the first mine, 1700000020 seconds later by
  the clock, leaves difficulty 2 where the rule of the specification gives 1.
\<close>

theorem first_mine_keeps_difficulty:
  "map_option blockchain.difficulty (state_after example_mining) = Some 2 \<and>
   last_mining_time example_state = 0 \<and>
   spec_adjusted_difficulty (1700000020 - last_mining_time example_state)
     (target_block_time example_state) (blockchain.difficulty example_state) = 1"
  by code_simp

section \<open>One pending spend per sender\<close>

text \<open>
  C2, as the code has it. For a sender other than "Genesis" with a transaction pending whose
  id differs from the id of the new one, \<open>add_transaction\<close> returns False and leaves the
  state as it was, whatever the amount; and after a call that returns True every pending
  transaction of that sender carries the id of the one just admitted.
\<close>

theorem second_pending_spend_rejected:
  assumes "a \<noteq> ''Genesis''"
  shows "(list_ex (\<lambda>p. sender p = a \<and>
                      transaction_id p \<noteq> transaction_id (new_transaction a b amt t_id t_stamp))
            (pending_transactions s) \<longrightarrow>
          add_transaction dumps a b amt w t_id t_stamp s = (False, s)) \<and>
         (fst (add_transaction dumps a b amt w t_id t_stamp s) \<longrightarrow>
          list_all (\<lambda>p. sender p = a \<longrightarrow>
                      transaction_id p = transaction_id (new_transaction a b amt t_id t_stamp))
            (pending_transactions (snd (add_transaction dumps a b amt w t_id t_stamp s))))"
  using assms
  by (auto simp add: add_transaction_def is_valid_transaction_def new_transaction_def Let_def
        list_ex_iff list_all_iff)

theorem second_pending_spend_rejected_witness:
  "map sender (pending_transactions example_pending) = [''alice''] \<and>
   get_balance example_pending ''alice'' = 90 \<and>
   add_transaction toy_dumps ''alice'' ''carol'' 20 toy_wallet 1700000022 1700000022
     example_pending = (False, example_pending)"
proof -
  have a: "''alice'' \<noteq> ''Genesis''" by simp
  have p: "list_ex (\<lambda>p. sender p = ''alice'' \<and>
                      transaction_id p \<noteq>
                        transaction_id (new_transaction ''alice'' ''carol'' 20 1700000022
                                          1700000022))
            (pending_transactions example_pending)"
    by code_simp
  have b: "map sender (pending_transactions example_pending) = [''alice'']"
    "get_balance example_pending ''alice'' = 90"
    by code_simp+
  from second_pending_spend_rejected
         [OF a, of "''carol''" 20 1700000022 1700000022 example_pending toy_dumps toy_wallet] p b
  show ?thesis by simp
qed

text \<open>
  A sender named "Genesis" is exempt from the check: with one transaction from "Genesis"
  pending, a second one is admitted.
\<close>

theorem genesis_second_spend_admitted:
  "map sender (pending_transactions example_state) = [''Genesis''] \<and>
   fst (add_transaction toy_dumps ''Genesis'' ''bob'' 7 toy_wallet 1700000005 1700000005
          example_state) \<and>
   map sender (pending_transactions
     (snd (add_transaction toy_dumps ''Genesis'' ''bob'' 7 toy_wallet 1700000005 1700000005
             example_state))) = [''Genesis'', ''Genesis'']"
  by code_simp

text \<open>
  The transaction id is sender, recipient and the clock in whole seconds: a second payment
  to the same recipient within the same second carries the id of the pending one, and the
  check lets it through.
\<close>

lemma same_second_resubmission_admitted:
  "fst (add_transaction toy_dumps ''alice'' ''bob'' 20 toy_wallet (1700000021 + 1 / 2)
          (1700000021 + 1 / 2) example_pending)"
  by code_simp

section \<open>Chain validation\<close>

lemma chain_valid_from_nth:
  "chain_valid_from sha dumps p rest \<longleftrightarrow>
     (\<forall>i < length rest.
        previous_hash (rest ! i) = hash ((p # rest) ! i) \<and>
        startswith (hash (rest ! i)) (zeros (block.difficulty (rest ! i))) \<and>
        block_calculate_hash sha dumps (rest ! i) = hash (rest ! i))"
proof (induction rest arbitrary: p)
  case Nil
  show ?case by simp
next
  case (Cons c rest)
  show ?case
    by (auto simp add: Cons.IH All_less_Suc2)
qed

lemma is_chain_valid_spec:
  "is_chain_valid sha dumps s = valid_chain_spec sha dumps (chain s)"
proof (cases "chain s")
  case Nil
  then show ?thesis by (simp add: is_chain_valid_def valid_chain_spec_def)
next
  case (Cons g rest)
  have "valid_chain_spec sha dumps (g # rest) = chain_valid_from sha dumps g rest"
    unfolding valid_chain_spec_def length_Cons ball_upt_Suc chain_valid_from_nth
    by simp
  with Cons show ?thesis by (simp add: is_chain_valid_def)
qed

lemma valid_chain_specD:
  assumes "valid_chain_spec sha dumps c" and "0 < i" and "i < length c"
  shows "block_calculate_hash sha dumps (c ! i) = hash (c ! i)"
proof -
  from assms(2,3) have "i \<in> set [1 ..< length c]" by simp
  with assms(1) show ?thesis unfolding valid_chain_spec_def by blast
qed

text \<open>What enters a content hash: every field of the block but \<open>hash\<close>, every field of
  a transaction but \<open>signature\<close>.\<close>

lemma transaction_to_dict_eq_iff:
  "transaction_to_dict t' = transaction_to_dict t \<longleftrightarrow>
     sender t' = sender t \<and> recipient t' = recipient t \<and> amount t' = amount t \<and>
     transaction_id t' = transaction_id t \<and> transaction.timestamp t' = transaction.timestamp t"
  by (auto simp add: transaction_to_dict_def)

lemma block_data_eq_iff:
  "block_data b' = block_data b \<longleftrightarrow>
     index b' = index b \<and> block.timestamp b' = block.timestamp b \<and>
     map transaction_to_dict (transactions b') = map transaction_to_dict (transactions b) \<and>
     previous_hash b' = previous_hash b \<and> nonce b' = nonce b \<and>
     block.difficulty b' = block.difficulty b \<and> merkle_root b' = merkle_root b"
  by (auto simp add: block_data_def)

lemma block_data_resign: "block_data (resign sig b) = block_data b"
  by (simp add: block_data_def resign_def transaction_to_dict_def)

lemma chain_valid_from_resign:
  "chain_valid_from sha dumps (resign sig p) (map (resign sig) rest)
     = chain_valid_from sha dumps p rest"
proof (induction rest arbitrary: p)
  case Nil
  show ?case by simp
next
  case (Cons c rest)
  have "block_calculate_hash sha dumps (resign sig c) = block_calculate_hash sha dumps c"
    by (simp add: block_calculate_hash_def block_data_resign)
  moreover have "hash (resign sig c) = hash c" "previous_hash (resign sig c) = previous_hash c"
    "block.difficulty (resign sig c) = block.difficulty c" "hash (resign sig p) = hash p"
    by (simp_all add: resign_def)
  ultimately show ?case by (simp add: Cons.IH)
qed

lemma is_chain_valid_resign:
  "is_chain_valid sha dumps (s\<lparr>chain := map (resign sig) (chain s)\<rparr>) = is_chain_valid sha dumps s"
  by (cases "chain s") (simp_all add: is_chain_valid_def chain_valid_from_resign)

lemma is_chain_valid_genesis:
  assumes "chain s = g # rest" and "hash g' = hash g"
  shows "is_chain_valid sha dumps (s\<lparr>chain := g' # rest\<rparr>) = is_chain_valid sha dumps s"
  using assms by (cases rest) (simp_all add: is_chain_valid_def)

lemma valid_chain_spec_linkD:
  assumes "valid_chain_spec sha dumps c" and "0 < i" and "i < length c"
  shows "previous_hash (c ! i) = hash (c ! (i - 1))"
proof -
  from assms(2,3) have "i \<in> set [1 ..< length c]" by simp
  with assms(1) show ?thesis unfolding valid_chain_spec_def by blast
qed

lemma tampered_block_rejected:
  assumes valid: "is_chain_valid sha dumps s"
    and i: "0 < i" "i < length (chain s)"
    and distinct: "block_calculate_hash sha dumps b' = block_calculate_hash sha dumps (chain s ! i)
                     \<longrightarrow> block_data b' = block_data (chain s ! i)"
    and changed: "(block_data b' \<noteq> block_data (chain s ! i) \<and> hash b' = hash (chain s ! i)) \<or>
                  (block_data b' = block_data (chain s ! i) \<and> hash b' \<noteq> hash (chain s ! i))"
  shows "\<not> is_chain_valid sha dumps (with_block i b' s)"
proof
  from valid have v: "valid_chain_spec sha dumps (chain s)" by (simp add: is_chain_valid_spec)
  from v i have stored: "block_calculate_hash sha dumps (chain s ! i) = hash (chain s ! i)"
    by (rule valid_chain_specD)
  from distinct changed stored have bad: "block_calculate_hash sha dumps b' \<noteq> hash b'"
    by (auto simp add: block_calculate_hash_def)
  assume "is_chain_valid sha dumps (with_block i b' s)"
  then have "valid_chain_spec sha dumps ((chain s)[i := b'])"
    by (simp add: is_chain_valid_spec with_block_def)
  from valid_chain_specD [OF this, of i] i
  have "block_calculate_hash sha dumps b' = hash b'" by simp
  with bad show False by simp
qed

lemma tampered_genesis_hash_rejected:
  assumes valid: "is_chain_valid sha dumps s"
    and long: "1 < length (chain s)"
    and changed: "hash g' \<noteq> hash (chain s ! 0)"
  shows "\<not> is_chain_valid sha dumps (with_block 0 g' s)"
proof
  from valid have "valid_chain_spec sha dumps (chain s)" by (simp add: is_chain_valid_spec)
  from valid_chain_spec_linkD [OF this, of 1] long
  have link: "previous_hash (chain s ! 1) = hash (chain s ! 0)" by simp
  assume "is_chain_valid sha dumps (with_block 0 g' s)"
  then have "valid_chain_spec sha dumps ((chain s)[0 := g'])"
    by (simp add: is_chain_valid_spec with_block_def)
  from long have "0 < length (chain s)" by (cases "chain s") simp_all
  then have "(chain s)[0 := g'] ! 0 = g'" by (simp only: nth_list_update_eq)
  with valid_chain_spec_linkD [OF \<open>valid_chain_spec sha dumps ((chain s)[0 := g'])\<close>, of 1] long
  have "previous_hash (chain s ! 1) = hash g'" by simp
  with link changed show False by simp
qed

text \<open>
  C1, as the code has it. A chain that is valid in the words of the specification passes
  \<open>is_chain_valid\<close>. From a chain that passes, replacing a block after the genesis block
  by one that differs from it in hashed content only (any field of the block but \<open>hash\<close>,
  any field of its transactions but \<open>signature\<close>), or in the stored hash only, makes
  \<open>is_chain_valid\<close> false, as long as the changed content does not hash to the same value
  as the original; and so does changing the stored hash of the genesis block when a second
  block follows it.
\<close>

theorem is_chain_valid_detects_tampering:
  "(valid_chain_spec sha dumps (chain s) \<longrightarrow> is_chain_valid sha dumps s) \<and>
   (is_chain_valid sha dumps s \<and> 0 < i \<and> i < length (chain s) \<and>
    (block_calculate_hash sha dumps b' = block_calculate_hash sha dumps (chain s ! i) \<longrightarrow>
       block_data b' = block_data (chain s ! i)) \<and>
    ((block_data b' \<noteq> block_data (chain s ! i) \<and> hash b' = hash (chain s ! i)) \<or>
     (block_data b' = block_data (chain s ! i) \<and> hash b' \<noteq> hash (chain s ! i)))
    \<longrightarrow> \<not> is_chain_valid sha dumps (with_block i b' s)) \<and>
   (is_chain_valid sha dumps s \<and> 1 < length (chain s) \<and> hash g' \<noteq> hash (chain s ! 0)
    \<longrightarrow> \<not> is_chain_valid sha dumps (with_block 0 g' s))"
proof (intro conjI impI)
  assume "valid_chain_spec sha dumps (chain s)"
  then show "is_chain_valid sha dumps s" by (simp add: is_chain_valid_spec)
next
  assume h: "is_chain_valid sha dumps s \<and> 0 < i \<and> i < length (chain s) \<and>
    (block_calculate_hash sha dumps b' = block_calculate_hash sha dumps (chain s ! i) \<longrightarrow>
       block_data b' = block_data (chain s ! i)) \<and>
    ((block_data b' \<noteq> block_data (chain s ! i) \<and> hash b' = hash (chain s ! i)) \<or>
     (block_data b' = block_data (chain s ! i) \<and> hash b' \<noteq> hash (chain s ! i)))"
  from h have valid: "is_chain_valid sha dumps s" and pos: "0 < i"
    and less: "i < length (chain s)" by simp_all
  from h have distinct:
    "block_calculate_hash sha dumps b' = block_calculate_hash sha dumps (chain s ! i) \<longrightarrow>
       block_data b' = block_data (chain s ! i)" by blast
  from h have changed:
    "(block_data b' \<noteq> block_data (chain s ! i) \<and> hash b' = hash (chain s ! i)) \<or>
     (block_data b' = block_data (chain s ! i) \<and> hash b' \<noteq> hash (chain s ! i))" by blast
  show "\<not> is_chain_valid sha dumps (with_block i b' s)"
    by (rule tampered_block_rejected [OF valid pos less distinct changed])
next
  assume h: "is_chain_valid sha dumps s \<and> 1 < length (chain s) \<and>
             hash g' \<noteq> hash (chain s ! 0)"
  then show "\<not> is_chain_valid sha dumps (with_block 0 g' s)"
    by (intro tampered_genesis_hash_rejected) simp_all
qed

theorem is_chain_valid_detects_tampering_witness:
  "valid_chain_spec toy_sha toy_dumps (chain example_mined) \<and>
   is_chain_valid toy_sha toy_dumps example_mined \<and>
   \<not> is_chain_valid toy_sha toy_dumps
       (with_block 1
          (example_block\<lparr>transactions :=
             (transactions example_block)
               [0 := (transactions example_block ! 0)\<lparr>amount := 101\<rparr>]\<rparr>)
          example_mined) \<and>
   \<not> is_chain_valid toy_sha toy_dumps
       (with_block 0 ((chain example_mined ! 0)\<lparr>hash := ''zz''\<rparr>) example_mined)"
proof -
  let ?b = "example_block\<lparr>transactions :=
             (transactions example_block)
               [0 := (transactions example_block ! 0)\<lparr>amount := 101\<rparr>]\<rparr>"
  let ?g = "(chain example_mined ! 0)\<lparr>hash := ''zz''\<rparr>"
  have spec: "valid_chain_spec toy_sha toy_dumps (chain example_mined)"
    by code_simp
  have i: "(0::nat) < 1" "1 < length (chain example_mined)"
    by code_simp+
  have c: "block_calculate_hash toy_sha toy_dumps ?b
             = block_calculate_hash toy_sha toy_dumps (chain example_mined ! 1) \<longrightarrow>
           block_data ?b = block_data (chain example_mined ! 1)"
    by code_simp
  have m: "(block_data ?b \<noteq> block_data (chain example_mined ! 1) \<and>
            hash ?b = hash (chain example_mined ! 1)) \<or>
           (block_data ?b = block_data (chain example_mined ! 1) \<and>
            hash ?b \<noteq> hash (chain example_mined ! 1))"
    by code_simp
  have g: "hash ?g \<noteq> hash (chain example_mined ! 0)"
    by code_simp
  note t = is_chain_valid_detects_tampering
             [where sha = toy_sha and dumps = toy_dumps and s = example_mined and i = 1
                and b' = ?b and g' = ?g]
  from t spec have v: "is_chain_valid toy_sha toy_dumps example_mined" by blast
  from t v i c m have "\<not> is_chain_valid toy_sha toy_dumps (with_block 1 ?b example_mined)"
    by blast
  moreover from t v i g
  have "\<not> is_chain_valid toy_sha toy_dumps (with_block 0 ?g example_mined)"
    by blast
  ultimately show ?thesis using spec v by blast
qed

text \<open>
  Three changes \<open>is_chain_valid\<close> does not see: the signature of a committed transaction,
  which no hash covers; the timestamp of the genesis block, which is never checked; and the
  stored hash of the genesis block while no second block links to it.
\<close>

theorem unhashed_fields_tampering_undetected:
  "is_chain_valid toy_sha toy_dumps example_mined \<and>
   signature (transactions example_block ! 0) \<noteq> Some ''forged'' \<and>
   is_chain_valid toy_sha toy_dumps
     (with_block 1
        (example_block\<lparr>transactions :=
           (transactions example_block)
             [0 := (transactions example_block ! 0)\<lparr>signature := Some ''forged''\<rparr>]\<rparr>)
        example_mined) \<and>
   block.timestamp (chain example_mined ! 0) \<noteq> 0 \<and>
   is_chain_valid toy_sha toy_dumps
     (with_block 0 ((chain example_mined ! 0)\<lparr>block.timestamp := 0\<rparr>) example_mined) \<and>
   is_chain_valid toy_sha toy_dumps example_fresh \<and>
   length (chain example_fresh) = 1 \<and>
   hash (chain example_fresh ! 0) \<noteq> ''zz'' \<and>
   is_chain_valid toy_sha toy_dumps
     (with_block 0 ((chain example_fresh ! 0)\<lparr>hash := ''zz''\<rparr>) example_fresh)"
  by code_simp

end
